theory Spec2Isabelle
  imports Main
begin

section \<open>JavaScript values\<close>

text \<open>
  The values that flow through \<^verbatim>\<open>Hook.Collection\<close> (src/collection.js). A Number is
  given by the decimal string that the language's ToString produces for it (\<open>20\<close> is
  \<open>JNum ''20''\<close>, \<open>-1.5\<close> is \<open>JNum ''-1.5''\<close>, NaN is \<open>JNum ''NaN''\<close>; \<open>-0\<close> prints as
  \<open>''0''\<close>): the class only tests numbers for truthiness, concatenates them into paths
  and hands them to \<^verbatim>\<open>parseInt\<close>, which all read that string. A function is given by its
  source text. \<open>JArgs\<close> is an \<^verbatim>\<open>arguments\<close> object; \<open>JObj\<close> is a plain data object, its own
  enumerable properties listed in enumeration order. Strings are ASCII.
\<close>

datatype jsval =
    JUndefined
  | JNull
  | JBool bool
  | JNum string
  | JStr string
  | JFun string
  | JArr "jsval list"
  | JArgs "jsval list"
  | JObj "(string \<times> jsval) list"

fun typeof :: "jsval \<Rightarrow> string" where
  "typeof JUndefined = ''undefined''"
| "typeof JNull = ''object''"
| "typeof (JBool b) = ''boolean''"
| "typeof (JNum n) = ''number''"
| "typeof (JStr s) = ''string''"
| "typeof (JFun f) = ''function''"
| "typeof (JArr xs) = ''object''"
| "typeof (JArgs xs) = ''object''"
| "typeof (JObj kvs) = ''object''"

text \<open>ToBoolean: \<^verbatim>\<open>undefined\<close>, \<^verbatim>\<open>null\<close>, \<^verbatim>\<open>false\<close>, \<open>0\<close>, NaN and the empty string are falsy.\<close>

fun truthy :: "jsval \<Rightarrow> bool" where
  "truthy JUndefined = False"
| "truthy JNull = False"
| "truthy (JBool b) = b"
| "truthy (JNum n) = (n \<noteq> ''0'' \<and> n \<noteq> ''NaN'')"
| "truthy (JStr s) = (s \<noteq> [])"
| "truthy (JFun f) = True"
| "truthy (JArr xs) = True"
| "truthy (JArgs xs) = True"
| "truthy (JObj kvs) = True"

fun join_comma :: "string list \<Rightarrow> string" where
  "join_comma [] = []"
| "join_comma [s] = s"
| "join_comma (s # ss) = s @ '','' @ join_comma ss"

text \<open>
  ToString, as string concatenation applies it (\<^verbatim>\<open>'/' + _id\<close>). An array joins its
  elements with commas, \<^verbatim>\<open>null\<close> and \<^verbatim>\<open>undefined\<close> elements printing as nothing.
\<close>

fun ToString :: "jsval \<Rightarrow> string" where
  "ToString JUndefined = ''undefined''"
| "ToString JNull = ''null''"
| "ToString (JBool b) = (if b then ''true'' else ''false'')"
| "ToString (JNum n) = n"
| "ToString (JStr s) = s"
| "ToString (JFun f) = f"
| "ToString (JArr xs) =
     join_comma (map (\<lambda>x. if x = JUndefined \<or> x = JNull then [] else ToString x) xs)"
| "ToString (JArgs xs) = ''[object Arguments]''"
| "ToString (JObj kvs) = ''[object Object]''"

text \<open>\<^verbatim>\<open>String.prototype.toLowerCase\<close>, on ASCII.\<close>

definition lower_char :: "char \<Rightarrow> char" where
  "lower_char c =
     (if 65 \<le> (of_char c :: nat) \<and> (of_char c :: nat) \<le> 90
      then char_of ((of_char c :: nat) + 32) else c)"

definition toLowerCase :: "string \<Rightarrow> string" where
  "toLowerCase s = map lower_char s"

text \<open>
  \<^verbatim>\<open>parseInt(v, 10)\<close>: the argument is converted to a string, leading white space is
  skipped, an optional sign is read, then the longest run of decimal digits; no digit
  gives NaN (\<open>None\<close>). Radix 10 strips no \<^verbatim>\<open>0x\<close> prefix.
\<close>

definition isWhiteSpace :: "char \<Rightarrow> bool" where
  "isWhiteSpace c = ((of_char c :: nat) \<in> {9, 10, 11, 12, 13, 32})"

definition isDigit :: "char \<Rightarrow> bool" where
  "isDigit c = (48 \<le> (of_char c :: nat) \<and> (of_char c :: nat) \<le> 57)"

definition digits_value :: "string \<Rightarrow> nat" where
  "digits_value ds = foldl (\<lambda>a d. 10 * a + ((of_char d :: nat) - 48)) 0 ds"

definition parseInt10 :: "string \<Rightarrow> int option" where
  "parseInt10 s =
     (let s1 = dropWhile isWhiteSpace s;
          neg = (s1 \<noteq> [] \<and> hd s1 = CHR ''-'');
          s2 = (if s1 \<noteq> [] \<and> (hd s1 = CHR ''-'' \<or> hd s1 = CHR ''+'') then tl s1 else s1);
          ds = takeWhile isDigit s2
      in if ds = [] then None
         else Some (if neg then - int (digits_value ds) else int (digits_value ds)))"

definition parseInt :: "jsval \<Rightarrow> int option" where
  "parseInt v = parseInt10 (ToString v)"

text \<open>Property read and write on a plain object; a missing property reads \<^verbatim>\<open>undefined\<close>.\<close>

definition js_get :: "(string \<times> jsval) list \<Rightarrow> string \<Rightarrow> jsval" where
  "js_get obj k = (case map_of obj k of None \<Rightarrow> JUndefined | Some v \<Rightarrow> v)"

fun js_set :: "(string \<times> jsval) list \<Rightarrow> string \<Rightarrow> jsval \<Rightarrow> (string \<times> jsval) list" where
  "js_set [] k v = [(k, v)]"
| "js_set ((k', v') # kvs) k v =
     (if k' = k then (k, v) # kvs else (k', v') # js_set kvs k v)"

text \<open>\<^verbatim>\<open>x.length\<close> of an array or an \<^verbatim>\<open>arguments\<close> object.\<close>

fun js_length :: "jsval \<Rightarrow> nat" where
  "js_length (JArr xs) = length xs"
| "js_length (JArgs xs) = length xs"
| "js_length (JStr s) = length s"
| "js_length v = 0"

section \<open>The collection object\<close>

text \<open>
  What a call can stop with: an \<^verbatim>\<open>Error\<close> with its message, a \<^verbatim>\<open>TypeError\<close>, or \<open>Opaque\<close>.
  \<open>Opaque\<close> is no error of the language: it marks the point where the class calls a
  function that the caller put inside an argument, which this development does not
  interpret; nothing is said of what the code does from there.
\<close>

datatype jserror = Error string | TypeError | Opaque

text \<open>
  The transport collaborator \<^verbatim>\<open>client\<close> is outside this class. It is represented by the
  trace of what the class does with it: a request is one call of \<^verbatim>\<open>client.get\<close>,
  \<^verbatim>\<open>client.post\<close>, \<^verbatim>\<open>client.put\<close> or \<^verbatim>\<open>client.remove\<close> with its path and the arguments
  that follow the path; \<open>Then\<close> is \<^verbatim>\<open>promise.then(...)\<close> on the promise that the latest
  request returned, with the continuations handed over. \<open>FetchComplete oc\<close> is the closure
  that \<^verbatim>\<open>paginate\<close> builds around its \<^verbatim>\<open>onComplete\<close>.
\<close>

datatype verb = Get | Post | Put | Remove

datatype callback = Callback jsval | FetchComplete jsval

datatype event = Request verb string "jsval list" | Then "callback list"

text \<open>
  The fields of the object. \<^verbatim>\<open>_group\<close>, \<^verbatim>\<open>_limit\<close>, \<^verbatim>\<open>_offset\<close> and \<^verbatim>\<open>_remember\<close> are
  \<open>p_group\<close>, \<open>p_limit\<close>, \<open>p_offset\<close> and \<open>p_remember\<close> here.
\<close>

record collection =
  client :: "event list"
  name :: string
  segments :: string
  options :: "(string \<times> jsval) list"
  wheres :: "jsval list"
  ordering :: "jsval list"
  p_group :: jsval
  p_limit :: jsval
  p_offset :: jsval
  p_remember :: jsval

text \<open>
  A method that can throw returns \<open>Inl (e, c)\<close>: the error thrown and the object as the
  throw leaves it; \<open>Inr c\<close> is a normal return with the object in state \<open>c\<close>.
\<close>

type_synonym outcome = "(jserror \<times> collection) + collection"

definition reset :: "collection \<Rightarrow> collection" where
  "reset c = c\<lparr>options := [], wheres := [], ordering := [], p_group := JArr [],
               p_limit := JNull, p_offset := JNull, p_remember := JNull\<rparr>"

subsection \<open>Construction\<close>

text \<open>The character class \<^verbatim>\<open>[a-z_\/0-9]\<close> and the test of \<^verbatim>\<open>/^[a-z_\/0-9]+$/\<close>.\<close>

definition name_char :: "char \<Rightarrow> bool" where
  "name_char c =
     ((97 \<le> (of_char c :: nat) \<and> (of_char c :: nat) \<le> 122) \<or> c = CHR ''_'' \<or> c = CHR ''/''
      \<or> (48 \<le> (of_char c :: nat) \<and> (of_char c :: nat) \<le> 57))"

fun regexp_test :: "string \<Rightarrow> bool" where
  "regexp_test [] = False"
| "regexp_test [c] = name_char c"
| "regexp_test (c # cs) = (name_char c \<and> regexp_test cs)"

definition validateName :: "string \<Rightarrow> jserror + string" where
  "validateName nm =
     (if \<not> regexp_test nm then Inl (Error (''Invalid name: '' @ nm)) else Inr nm)"

text \<open>
  \<^verbatim>\<open>new Collection(client, name)\<close>: a throw of \<^verbatim>\<open>_validateName\<close> leaves no object. The
  fields come out as \<^verbatim>\<open>reset()\<close> sets them.
\<close>

definition constructor :: "event list \<Rightarrow> string \<Rightarrow> jserror + collection" where
  "constructor cl nm =
     (case validateName nm of
        Inl e \<Rightarrow> Inl e
      | Inr n \<Rightarrow>
          Inr ((reset \<lparr>client = cl, name = n, segments = [], options = [], wheres = [],
                       ordering = [], p_group = JUndefined, p_limit = JUndefined,
                       p_offset = JUndefined, p_remember = JUndefined\<rparr>)
                 \<lparr>segments := ''collection/'' @ n\<rparr>))"

subsection \<open>Modifiers\<close>

definition select :: "jsval list \<Rightarrow> collection \<Rightarrow> collection" where
  "select arguments c = c\<lparr>options := js_set (options c) ''select'' (JArgs arguments)\<rparr>"

definition join :: "jsval list \<Rightarrow> collection \<Rightarrow> collection" where
  "join arguments c = c\<lparr>options := js_set (options c) ''with'' (JArgs arguments)\<rparr>"

definition distinct_js :: "collection \<Rightarrow> collection" where
  "distinct_js c = c\<lparr>options := js_set (options c) ''distinct'' (JBool True)\<rparr>"

definition group :: "jsval list \<Rightarrow> collection \<Rightarrow> collection" where
  "group arguments c = c\<lparr>p_group := JArgs arguments\<rparr>"

definition limit :: "jsval \<Rightarrow> collection \<Rightarrow> collection" where
  "limit i c = c\<lparr>p_limit := i\<rparr>"

definition offset :: "jsval \<Rightarrow> collection \<Rightarrow> collection" where
  "offset i c = c\<lparr>p_offset := i\<rparr>"

definition remember :: "jsval \<Rightarrow> collection \<Rightarrow> collection" where
  "remember minutes c = c\<lparr>p_remember := minutes\<rparr>"

text \<open>
  \<^verbatim>\<open>this.wheres.push([field, operation.toLowerCase(), value, boolean])\<close>: an operation
  that is not a string has no \<^verbatim>\<open>toLowerCase\<close>, and the call throws before the push.
\<close>

definition addWhere :: "jsval \<Rightarrow> jsval \<Rightarrow> jsval \<Rightarrow> jsval \<Rightarrow> collection \<Rightarrow> outcome" where
  "addWhere field operation value boolean c =
     (case operation of
        JStr s \<Rightarrow> Inr (c\<lparr>wheres := wheres c @ [JArr [field, JStr (toLowerCase s), value, boolean]]\<rparr>)
      | _ \<Rightarrow> Inl (TypeError, c))"

text \<open>\<^verbatim>\<open>xs[i]\<close> on an array: \<^verbatim>\<open>undefined\<close> beyond its end.\<close>

definition js_index :: "jsval list \<Rightarrow> nat \<Rightarrow> jsval" where
  "js_index xs i = (if i < length xs then xs ! i else JUndefined)"

text \<open>The property name of an array index: its decimal digits.\<close>

definition digit_char :: "nat \<Rightarrow> char" where
  "digit_char d = char_of (d + 48)"

fun index_key :: "nat \<Rightarrow> string" where
  "index_key i =
     (if i div 10 = 0 then [digit_char i] else index_key (i div 10) @ [digit_char (i mod 10)])"

declare index_key.simps [simp del]

text \<open>
  The properties that \<^verbatim>\<open>for (field in objects)\<close> visits: the entries of an object, the
  indices of an array or of an \<^verbatim>\<open>arguments\<close> object, nothing for \<^verbatim>\<open>null\<close>.
\<close>

fun own_entries :: "jsval \<Rightarrow> (string \<times> jsval) list" where
  "own_entries (JObj kvs) = kvs"
| "own_entries (JArr xs) = zip (map index_key [0 ..< length xs]) xs"
| "own_entries (JArgs xs) = zip (map index_key [0 ..< length xs]) xs"
| "own_entries v = []"

text \<open>
  \<^verbatim>\<open>objects.hasOwnProperty(field)\<close>: the method is looked up on the argument itself. A
  map with no entry of that name inherits the built-in test. A map that has one calls
  its value instead: a value that is no function makes the call throw a \<^verbatim>\<open>TypeError\<close>, and
  a function is the caller's own code.
\<close>

definition hasOwnProperty :: "jsval \<Rightarrow> string \<Rightarrow> jserror + bool" where
  "hasOwnProperty objects field =
     (case map_of (own_entries objects) ''hasOwnProperty'' of
        None \<Rightarrow> Inr (map_of (own_entries objects) field \<noteq> None)
      | Some h \<Rightarrow> if typeof h = ''function'' then Inl Opaque else Inl TypeError)"

text \<open>The loop of \<^verbatim>\<open>where\<close> over the entries of its map argument \<open>objects\<close>.\<close>

fun where_entries ::
  "jsval \<Rightarrow> (string \<times> jsval) list \<Rightarrow> jsval \<Rightarrow> collection \<Rightarrow> outcome" where
  "where_entries objects [] boolean c = Inr c"
| "where_entries objects ((field, x) # rest) boolean c =
     (case hasOwnProperty objects field of
        Inl e \<Rightarrow> Inl (e, c)
      | Inr own \<Rightarrow>
          if own
          then (case (case x of
                        JArr xs \<Rightarrow>
                          addWhere (JStr field) (js_index xs 0) (js_index xs 1) boolean c
                      | _ \<Rightarrow> addWhere (JStr field) (JStr ''='') x boolean c) of
                  Inl e \<Rightarrow> Inl e
                | Inr c' \<Rightarrow> where_entries objects rest boolean c')
          else where_entries objects rest boolean c)"

text \<open>\<^verbatim>\<open>where(objects, _operation, _value, _boolean)\<close>; an argument left out is \<^verbatim>\<open>undefined\<close>.\<close>

definition where_js :: "jsval \<Rightarrow> jsval \<Rightarrow> jsval \<Rightarrow> jsval \<Rightarrow> collection \<Rightarrow> outcome" where
  "where_js objects operation' value' boolean' c =
     (let operation = (if typeof value' = ''undefined'' then JStr ''='' else operation');
          value = (if typeof value' = ''undefined'' then operation' else value');
          boolean = (if typeof boolean' = ''undefined'' then JStr ''and'' else boolean')
      in if typeof objects = ''object''
         then where_entries objects (own_entries objects) boolean c
         else addWhere objects operation value boolean c)"

definition orWhere :: "jsval \<Rightarrow> jsval \<Rightarrow> jsval \<Rightarrow> collection \<Rightarrow> outcome" where
  "orWhere objects operation' value' c = where_js objects operation' value' (JStr ''or'') c"

definition sort_js :: "jsval \<Rightarrow> jsval \<Rightarrow> collection \<Rightarrow> collection" where
  "sort_js field direction c =
     (let direction' =
            (if \<not> truthy direction then JStr ''asc''
             else if typeof direction = ''number''
               then (if parseInt direction = Some (- 1) then JStr ''desc'' else JStr ''asc'')
             else direction)
      in c\<lparr>ordering := ordering c @ [JArr [field, direction']]\<rparr>)"

definition channel :: "jsval \<Rightarrow> collection \<Rightarrow> outcome" where
  "channel opts c = Inl (Error ''Not implemented.'', c)"

subsection \<open>Compiling the query\<close>

definition shortnames :: "(string \<times> string) list" where
  "shortnames =
     [(''paginate'', ''p''), (''first'', ''f''), (''aggregation'', ''aggr''),
      (''operation'', ''op''), (''data'', ''data''), (''with'', ''with''),
      (''select'', ''select''), (''distinct'', ''distinct'')]"

text \<open>The loop \<^verbatim>\<open>for (f in shortnames)\<close> of \<^verbatim>\<open>buildQuery\<close>.\<close>

fun apply_options ::
  "(string \<times> string) list \<Rightarrow> (string \<times> jsval) list \<Rightarrow> (string \<times> jsval) list
     \<Rightarrow> (string \<times> jsval) list" where
  "apply_options [] opts query = query"
| "apply_options ((f, short) # rest) opts query =
     apply_options rest opts
       (if truthy (js_get opts f) then js_set query short (js_get opts f) else query)"

text \<open>\<^verbatim>\<open>buildQuery()\<close> returns the query object and leaves the object reset.\<close>

definition buildQuery :: "collection \<Rightarrow> (string \<times> jsval) list \<times> collection" where
  "buildQuery c =
     (let query = [];
          query = (if p_limit c \<noteq> JNull then js_set query ''limit'' (p_limit c) else query);
          query = (if p_offset c \<noteq> JNull then js_set query ''offset'' (p_offset c) else query);
          query = (if p_remember c \<noteq> JNull then js_set query ''remember'' (p_remember c)
                   else query);
          query = (if length (wheres c) > 0 then js_set query ''q'' (JArr (wheres c)) else query);
          query = (if length (ordering c) > 0 then js_set query ''s'' (JArr (ordering c))
                   else query);
          query = (if js_length (p_group c) > 0 then js_set query ''g'' (p_group c) else query);
          query = apply_options shortnames (options c) query
      in (query, reset c))"

subsection \<open>Terminal operations\<close>

definition create :: "jsval \<Rightarrow> collection \<Rightarrow> collection" where
  "create data c = c\<lparr>client := client c @ [Request Post (segments c) [data]]\<rparr>"

definition get :: "collection \<Rightarrow> collection" where
  "get c =
     (let (query, c') = buildQuery c
      in c'\<lparr>client := client c' @ [Request Get (segments c) [JObj query]]\<rparr>)"

definition then_js :: "callback list \<Rightarrow> collection \<Rightarrow> collection" where
  "then_js arguments c = (let c' = get c in c'\<lparr>client := client c' @ [Then arguments]\<rparr>)"

text \<open>
  \<^verbatim>\<open>paginate(perPage, onComplete, onError)\<close>. \<^verbatim>\<open>Hook.defaults.perPage\<close> is declared
  outside this file and is the parameter \<open>defaults_perPage\<close>; so is \<^verbatim>\<open>Hook.Pagination\<close>,
  whose object the method returns and the closure captures.
\<close>

definition paginate :: "jsval \<Rightarrow> jsval \<Rightarrow> jsval \<Rightarrow> jsval \<Rightarrow> collection \<Rightarrow> collection" where
  "paginate defaults_perPage perPage onComplete onError c =
     (let (onComplete', perPage') =
            (if \<not> truthy onComplete then (perPage, defaults_perPage)
             else (onComplete, perPage));
          c1 = c\<lparr>options := js_set (options c) ''paginate'' perPage'\<rparr>
      in then_js [FetchComplete onComplete', Callback onError] c1)"

definition drop_js :: "collection \<Rightarrow> collection" where
  "drop_js c = c\<lparr>client := client c @ [Request Remove (segments c) []]\<rparr>"


definition update :: "jsval \<Rightarrow> jsval \<Rightarrow> collection \<Rightarrow> collection" where
  "update id' data c =
     c\<lparr>client := client c @ [Request Post (segments c @ ''/'' @ ToString id') [data]]\<rparr>"

definition updateAll :: "jsval \<Rightarrow> collection \<Rightarrow> collection" where
  "updateAll data c =
     (let c1 = c\<lparr>options := js_set (options c) ''data'' data\<rparr>;
          (query, c') = buildQuery c1
      in c'\<lparr>client := client c' @ [Request Put (segments c) [JObj query]]\<rparr>)"

subsection \<open>Chains of modifier calls\<close>

text \<open>
  The methods that only touch the accumulator, as calls: a builder is driven by a chain
  of them before a terminal call. \<open>modify\<close> is the object after one call, also when
  the call throws and the caller goes on with the object.
\<close>

datatype modifier =
    Select "jsval list"
  | Join "jsval list"
  | Distinct
  | Group "jsval list"
  | Where jsval jsval jsval jsval
  | OrWhere jsval jsval jsval
  | Sort jsval jsval
  | Limit jsval
  | Offset jsval
  | Remember jsval
  | Reset

definition state_of :: "outcome \<Rightarrow> collection" where
  "state_of r = (case r of Inl (e, c) \<Rightarrow> c | Inr c \<Rightarrow> c)"

fun modify :: "modifier \<Rightarrow> collection \<Rightarrow> collection" where
  "modify (Select xs) c = select xs c"
| "modify (Join xs) c = join xs c"
| "modify Distinct c = distinct_js c"
| "modify (Group xs) c = group xs c"
| "modify (Where a b v k) c = state_of (where_js a b v k c)"
| "modify (OrWhere a b v) c = state_of (orWhere a b v c)"
| "modify (Sort f d) c = sort_js f d c"
| "modify (Limit i) c = limit i c"
| "modify (Offset i) c = offset i c"
| "modify (Remember m) c = remember m c"
| "modify Reset c = reset c"

fun chain :: "modifier list \<Rightarrow> collection \<Rightarrow> collection" where
  "chain [] c = c"
| "chain (m # ms) c = chain ms (modify m c)"

text \<open>The requests of a trace.\<close>

fun is_request :: "event \<Rightarrow> bool" where
  "is_request (Request v p xs) = True"
| "is_request (Then ks) = False"

subsection \<open>Reading one key of the query\<close>

text \<open>
  What the loop over \<open>shortnames\<close> leaves under one key \<open>k\<close> of the query, given what
  was under it before.
\<close>

fun lookup_options ::
  "(string \<times> string) list \<Rightarrow> (string \<times> jsval) list \<Rightarrow> string \<Rightarrow> jsval option
     \<Rightarrow> jsval option" where
  "lookup_options [] opts k r = r"
| "lookup_options ((f, short) # rest) opts k r =
     lookup_options rest opts k
       (if truthy (js_get opts f) \<and> short = k then Some (js_get opts f) else r)"

subsection \<open>The normal forms that the specification names\<close>

text \<open>
  The clause that the specification gives for one entry of the map argument of
  \<^verbatim>\<open>where\<close>: a pair \<open>[operator, value]\<close> supplies both, with the operator lower-cased as
  every stored clause has it; any other value is compared with \<open>=\<close>.
\<close>

fun clause_of_entry :: "jsval \<Rightarrow> string \<times> jsval \<Rightarrow> jsval" where
  "clause_of_entry boolean (k, JArr [JStr operator, v]) =
     JArr [JStr k, JStr (toLowerCase operator), v, boolean]"
| "clause_of_entry boolean (k, x) = JArr [JStr k, JStr ''='', x, boolean]"

text \<open>A string of ASCII characters: on these \<open>toLowerCase\<close> above is the language's.\<close>

definition ascii :: "string \<Rightarrow> bool" where
  "ascii s = list_all (\<lambda>ch. (of_char ch :: nat) < 128) s"

text \<open>
  An entry's value is a pair of an ASCII operator string and a value, or no array at all.
\<close>

fun pair_or_bare :: "jsval \<Rightarrow> bool" where
  "pair_or_bare (JArr [JStr operator, v]) = ascii operator"
| "pair_or_bare (JArr xs) = False"
| "pair_or_bare x = True"

text \<open>
  The plain decimal notation of an integer: its digits, with a minus sign when it is
  negative. ToString prints an integer Number in this notation only below \<open>10^21\<close> in
  magnitude; from there on it prints exponent notation (\<open>-1e21\<close> is \<open>''-1e+21''\<close>),
  which this function does not produce. It stands for a Number under that bound only.
  Up to \<open>2^53\<close> the digits printed are those of the Number itself; between \<open>2^53\<close> and
  \<open>10^21\<close> they are the digits of an integer that rounds to it, which is again an
  integer under the bound and is \<open>-1\<close> only if the Number is.
\<close>

definition int_string :: "int \<Rightarrow> string" where
  "int_string i = (if i < 0 then CHR ''-'' # index_key (nat (- i)) else index_key (nat i))"

section \<open>Construction and the name pattern\<close>

lemma name_char_iff: "name_char c = (c \<in> set ''abcdefghijklmnopqrstuvwxyz_/0123456789'')"
  by (cases c) (auto simp: name_char_def)

lemma regexp_test_iff: "regexp_test s = (s \<noteq> [] \<and> list_all name_char s)"
  by (induction s rule: regexp_test.induct) auto

lemma regexp_test_charset:
  "regexp_test s = (s \<noteq> [] \<and> set s \<subseteq> set ''abcdefghijklmnopqrstuvwxyz_/0123456789'')"
proof -
  have "list_all name_char s = (set s \<subseteq> set ''abcdefghijklmnopqrstuvwxyz_/0123456789'')"
    unfolding list_all_iff name_char_iff by blast
  then show ?thesis by (simp add: regexp_test_iff)
qed

text \<open>
  C5. A builder is constructed exactly for the names that are non-empty and made of
  lowercase letters, digits, underscore and slash; the object then holds the name, the
  path \<open>collection/<name>\<close> and an empty accumulator. Every other string makes the
  constructor throw \<^verbatim>\<open>Error("Invalid name: " + name)\<close>, and no object results.
\<close>

theorem constructor_accepts_exactly_pattern:
  "constructor cl nm =
     (if nm \<noteq> [] \<and> set nm \<subseteq> set ''abcdefghijklmnopqrstuvwxyz_/0123456789''
      then Inr \<lparr>client = cl, name = nm, segments = ''collection/'' @ nm, options = [],
                wheres = [], ordering = [], p_group = JArr [], p_limit = JNull,
                p_offset = JNull, p_remember = JNull\<rparr>
      else Inl (Error (''Invalid name: '' @ nm)))"
  unfolding constructor_def validateName_def regexp_test_charset
  by (simp add: reset_def)

theorem constructor_accepts_exactly_pattern_witness:
  "constructor [] ''posts/2016_a'' =
     Inr \<lparr>client = [], name = ''posts/2016_a'', segments = ''collection/posts/2016_a'',
          options = [], wheres = [], ordering = [], p_group = JArr [], p_limit = JNull,
          p_offset = JNull, p_remember = JNull\<rparr>
   \<and> constructor [] ''Posts'' = Inl (Error ''Invalid name: Posts'')
   \<and> constructor [] [] = Inl (Error ''Invalid name: '')"
  using constructor_accepts_exactly_pattern [of "[]" "''posts/2016_a''"]
    constructor_accepts_exactly_pattern [of "[]" "''Posts''"]
    constructor_accepts_exactly_pattern [of "[]" "[]"]
  by simp

section \<open>Compile and reset\<close>

lemma reset_reset: "reset (reset c) = reset c"
  by (simp add: reset_def)

lemma snd_buildQuery: "snd (buildQuery c) = reset c"
  by (simp add: buildQuery_def Let_def)

lemma apply_options_empty: "apply_options sn [] q = q"
  by (induction sn "[] :: (string \<times> jsval) list" q rule: apply_options.induct)
     (simp_all add: js_get_def)

lemma buildQuery_reset: "fst (buildQuery (reset c)) = []"
  by (simp add: buildQuery_def reset_def apply_options_empty)

text \<open>
  C7. \<^verbatim>\<open>buildQuery\<close> leaves the object reset, whatever the accumulator held; compiling
  again straight away returns the empty query \<open>{}\<close> and leaves the object reset still.
\<close>

theorem buildQuery_twice_empty:
  "snd (buildQuery c) = reset c \<and> buildQuery (snd (buildQuery c)) = ([], reset c)"
  by (simp add: snd_buildQuery prod_eq_iff buildQuery_reset reset_reset)

theorem buildQuery_twice_empty_witness:
  "fst (buildQuery (chain [Limit (JNum ''5''), Offset (JNum ''5''),
        Sort (JStr ''updated_at'') (JNum ''-1'')] (projr (constructor [] ''posts''))))
     = [(''limit'', JNum ''5''), (''offset'', JNum ''5''),
        (''s'', JArr [JArr [JStr ''updated_at'', JStr ''desc'']])]
   \<and> buildQuery (snd (buildQuery (chain [Limit (JNum ''5''), Offset (JNum ''5''),
        Sort (JStr ''updated_at'') (JNum ''-1'')] (projr (constructor [] ''posts'')))))
     = ([], projr (constructor [] ''posts''))"
proof -
  have c: "chain [Limit (JNum ''5''), Offset (JNum ''5''),
        Sort (JStr ''updated_at'') (JNum ''-1'')] (projr (constructor [] ''posts''))
     = (projr (constructor [] ''posts''))
         \<lparr>ordering := [JArr [JStr ''updated_at'', JStr ''desc'']],
          p_limit := JNum ''5'', p_offset := JNum ''5''\<rparr>"
    by (simp add: limit_def offset_def sort_js_def parseInt_def parseInt10_def isWhiteSpace_def
        isDigit_def digits_value_def constructor_def validateName_def name_char_def reset_def)
  have r: "reset ((projr (constructor [] ''posts''))
         \<lparr>ordering := [JArr [JStr ''updated_at'', JStr ''desc'']],
          p_limit := JNum ''5'', p_offset := JNum ''5''\<rparr>) = projr (constructor [] ''posts'')"
    by (simp add: constructor_def validateName_def name_char_def reset_def)
  have q: "fst (buildQuery ((projr (constructor [] ''posts''))
         \<lparr>ordering := [JArr [JStr ''updated_at'', JStr ''desc'']],
          p_limit := JNum ''5'', p_offset := JNum ''5''\<rparr>))
     = [(''limit'', JNum ''5''), (''offset'', JNum ''5''),
        (''s'', JArr [JArr [JStr ''updated_at'', JStr ''desc'']])]"
    by (simp add: buildQuery_def shortnames_def js_get_def constructor_def validateName_def
        name_char_def reset_def)
  from buildQuery_twice_empty
    [of "chain [Limit (JNum ''5''), Offset (JNum ''5''),
        Sort (JStr ''updated_at'') (JNum ''-1'')] (projr (constructor [] ''posts''))",
     THEN conjunct2]
  show ?thesis
    unfolding c by (simp add: q r)
qed

section \<open>The channel capability\<close>

lemma addWhere_frame:
  "addWhere f op v b c = Inl (TypeError, c)
   \<or> (\<exists>c'. addWhere f op v b c = Inr c' \<and> client c' = client c \<and> segments c' = segments c)"
  by (cases op) (simp_all add: addWhere_def)

lemma state_of_addWhere:
  "client (state_of (addWhere f op v b c)) = client c
   \<and> segments (state_of (addWhere f op v b c)) = segments c"
  using addWhere_frame [of f op v b c] by (auto simp: state_of_def)

lemma state_of_where_entries:
  "client (state_of (where_entries ob es b c)) = client c
   \<and> segments (state_of (where_entries ob es b c)) = segments c"
proof (induction es arbitrary: c)
  case Nil
  show ?case by (simp add: state_of_def)
next
  case (Cons e es)
  obtain field x where e: "e = (field, x)" by (cases e)
  let ?r = "(case x of
              JArr xs \<Rightarrow> addWhere (JStr field) (js_index xs 0) (js_index xs 1) b c
            | _ \<Rightarrow> addWhere (JStr field) (JStr ''='') x b c)"
  have r: "?r = Inl (TypeError, c)
      \<or> (\<exists>c'. ?r = Inr c' \<and> client c' = client c \<and> segments c' = segments c)"
    using addWhere_frame by (cases x) simp_all
  show ?case
  proof (cases "hasOwnProperty ob field")
    case (Inl err)
    then show ?thesis by (simp add: e state_of_def)
  next
    case (Inr own)
    show ?thesis
    proof (cases own)
      case False
      with Inr Cons.IH [of c] show ?thesis by (simp add: e)
    next
      case True
      from r show ?thesis
      proof
        assume "?r = Inl (TypeError, c)"
        with Inr True show ?thesis by (simp add: e state_of_def)
      next
        assume "\<exists>c'. ?r = Inr c' \<and> client c' = client c \<and> segments c' = segments c"
        then obtain c' where c': "?r = Inr c'" "client c' = client c" "segments c' = segments c"
          by blast
        with Inr True Cons.IH [of c'] show ?thesis by (simp add: e)
      qed
    qed
  qed
qed

lemma client_where_js: "client (state_of (where_js a b v k c)) = client c"
  by (simp add: where_js_def Let_def state_of_where_entries state_of_addWhere)

lemma client_modify: "client (modify m c) = client c"
  by (cases m)
     (simp_all add: select_def join_def distinct_js_def group_def sort_js_def Let_def
        limit_def offset_def remember_def reset_def client_where_js orWhere_def)

lemma client_chain: "client (chain ms c) = client c"
  by (induction ms arbitrary: c) (simp_all add: client_modify)

text \<open>
  C9. \<^verbatim>\<open>channel()\<close> throws \<^verbatim>\<open>Error("Not implemented.")\<close> on every object and leaves it as
  it was. In particular it does so after any chain of modifier calls, and the trace of
  the transport is then still the one the chain started with: nothing was dispatched.
\<close>

theorem channel_always_not_implemented:
  "channel opts c = Inl (Error ''Not implemented.'', c)
   \<and> channel opts (chain ms c) = Inl (Error ''Not implemented.'', chain ms c)
   \<and> client (chain ms c) = client c"
  by (simp add: channel_def client_chain)

theorem channel_always_not_implemented_witness:
  "channel JUndefined
     (chain [Where (JStr ''type'') (JStr ''new-game'') JUndefined JUndefined, Limit (JNum ''5'')]
        (projr (constructor [] ''messages'')))
   = Inl (Error ''Not implemented.'',
       \<lparr>client = [], name = ''messages'', segments = ''collection/messages'', options = [],
        wheres = [JArr [JStr ''type'', JStr ''='', JStr ''new-game'', JStr ''and'']],
        ordering = [], p_group = JArr [], p_limit = JNum ''5'', p_offset = JNull,
        p_remember = JNull\<rparr>)"
  using channel_always_not_implemented
    [of JUndefined "projr (constructor [] ''messages'')"
       "[Where (JStr ''type'') (JStr ''new-game'') JUndefined JUndefined, Limit (JNum ''5'')]"]
  by (simp add: constructor_def validateName_def name_char_def reset_def where_js_def
      addWhere_def state_of_def limit_def toLowerCase_def lower_char_def)

section \<open>Writes that bypass the compiler\<close>

text \<open>
  C10. \<^verbatim>\<open>create(data)\<close>, \<^verbatim>\<open>update(id, data)\<close> and \<^verbatim>\<open>drop()\<close> change nothing of the object
  but the trace of the transport: options, clauses, ordering, group, limit, offset and
  remember are as before the call, so the next compiled query is the one that would have
  been compiled before it.
\<close>

theorem raw_writes_keep_accumulator:
  "(create data c)\<lparr>client := client c\<rparr> = c
   \<and> (update id' data c)\<lparr>client := client c\<rparr> = c
   \<and> (drop_js c)\<lparr>client := client c\<rparr> = c
   \<and> fst (buildQuery (create data c)) = fst (buildQuery c)
   \<and> fst (buildQuery (update id' data c)) = fst (buildQuery c)
   \<and> fst (buildQuery (drop_js c)) = fst (buildQuery c)"
  by (simp add: create_def update_def drop_js_def buildQuery_def)

theorem raw_writes_keep_accumulator_witness:
  "fst (buildQuery (create (JObj [(''title'', JStr ''Post name'')])
      (chain [Where (JStr ''stars'') (JStr ''>'') (JNum ''10'') JUndefined]
         (projr (constructor [] ''posts'')))))
   = [(''q'', JArr [JArr [JStr ''stars'', JStr ''>'', JNum ''10'', JStr ''and'']])]
   \<and> fst (buildQuery (drop_js
      (chain [Where (JStr ''stars'') (JStr ''>'') (JNum ''10'') JUndefined]
         (projr (constructor [] ''posts'')))))
   = [(''q'', JArr [JArr [JStr ''stars'', JStr ''>'', JNum ''10'', JStr ''and'']])]"
proof -
  let ?c = "chain [Where (JStr ''stars'') (JStr ''>'') (JNum ''10'') JUndefined]
         (projr (constructor [] ''posts''))"
  have q: "fst (buildQuery ?c)
     = [(''q'', JArr [JArr [JStr ''stars'', JStr ''>'', JNum ''10'', JStr ''and'']])]"
    by (simp add: buildQuery_def shortnames_def js_get_def constructor_def validateName_def
      name_char_def reset_def where_js_def addWhere_def state_of_def toLowerCase_def
      lower_char_def)
  from raw_writes_keep_accumulator
    [where data = "JObj [(''title'', JStr ''Post name'')]" and c = ?c]
  have "fst (buildQuery (create (JObj [(''title'', JStr ''Post name'')]) ?c)) = fst (buildQuery ?c)"
    and "fst (buildQuery (drop_js ?c)) = fst (buildQuery ?c)"
    by blast+
  then show ?thesis
    unfolding q by blast
qed

section \<open>The keys of the compiled query\<close>

lemma map_of_js_set: "map_of (js_set q k v) k' = (if k = k' then Some v else map_of q k')"
  by (induction q) auto

lemma map_of_set_if:
  "map_of (if b then js_set q k v else q) k' = (if b \<and> k = k' then Some v else map_of q k')"
  by (simp add: map_of_js_set)

lemma js_get_js_set: "js_get (js_set q k v) k' = (if k = k' then v else js_get q k')"
  by (simp add: js_get_def map_of_js_set)

lemma map_of_apply_options:
  "map_of (apply_options sn opts q) k = lookup_options sn opts k (map_of q k)"
  by (induction sn opts q rule: apply_options.induct) (simp_all add: map_of_js_set)

lemma map_of_buildQuery:
  "map_of (fst (buildQuery c)) k =
     lookup_options shortnames (options c) k
       (if js_length (p_group c) > 0 \<and> k = ''g'' then Some (p_group c)
        else if ordering c \<noteq> [] \<and> k = ''s'' then Some (JArr (ordering c))
        else if wheres c \<noteq> [] \<and> k = ''q'' then Some (JArr (wheres c))
        else if p_remember c \<noteq> JNull \<and> k = ''remember'' then Some (p_remember c)
        else if p_offset c \<noteq> JNull \<and> k = ''offset'' then Some (p_offset c)
        else if p_limit c \<noteq> JNull \<and> k = ''limit'' then Some (p_limit c)
        else None)"
  unfolding buildQuery_def Let_def fst_conv map_of_apply_options map_of_set_if
  by (simp cong: if_cong)

lemma buildQuery_scalar_keys:
  "map_of (fst (buildQuery c)) ''limit'' = (if p_limit c \<noteq> JNull then Some (p_limit c) else None)"
  "map_of (fst (buildQuery c)) ''offset'' = (if p_offset c \<noteq> JNull then Some (p_offset c) else None)"
  "map_of (fst (buildQuery c)) ''remember'' =
     (if p_remember c \<noteq> JNull then Some (p_remember c) else None)"
  by (simp_all add: map_of_buildQuery shortnames_def)

lemma buildQuery_list_keys:
  "map_of (fst (buildQuery c)) ''q'' = (if wheres c \<noteq> [] then Some (JArr (wheres c)) else None)"
  "map_of (fst (buildQuery c)) ''s'' = (if ordering c \<noteq> [] then Some (JArr (ordering c)) else None)"
  "map_of (fst (buildQuery c)) ''g'' = (if js_length (p_group c) > 0 then Some (p_group c) else None)"
  by (simp_all add: map_of_buildQuery shortnames_def)

lemma buildQuery_option_keys:
  "list_all (\<lambda>(f, short). map_of (fst (buildQuery c)) short =
       (if truthy (js_get (options c) f) then Some (js_get (options c) f) else None))
     shortnames"
  by (simp add: map_of_buildQuery shortnames_def)

lemma buildQuery_no_other_key:
  "fst ` set (fst (buildQuery c)) \<subseteq>
     set [''limit'', ''offset'', ''remember'', ''q'', ''s'', ''g''] \<union> snd ` set shortnames"
proof
  fix k assume k: "k \<in> fst ` set (fst (buildQuery c))"
  show "k \<in> set [''limit'', ''offset'', ''remember'', ''q'', ''s'', ''g''] \<union> snd ` set shortnames"
  proof (rule ccontr)
    assume "\<not> ?thesis"
    then have "list_all (\<lambda>s. s \<noteq> k \<and> k \<noteq> s)
        [''limit'', ''offset'', ''remember'', ''q'', ''s'', ''g'', ''p'', ''f'', ''aggr'', ''op'',
         ''data'', ''with'', ''select'', ''distinct'']"
      by (auto simp: shortnames_def)
    then have "map_of (fst (buildQuery c)) k = None"
      by (simp add: map_of_buildQuery shortnames_def)
    with k show False by (simp add: map_of_eq_None_iff)
  qed
qed

text \<open>
  C4, as the code has it. \<open>limit\<close>, \<open>offset\<close> and \<open>remember\<close> are keys of the query
  exactly when the field is not \<^verbatim>\<open>null\<close>; \<open>q\<close>, \<open>s\<close> and \<open>g\<close> exactly when the list has
  an element; the short key of an option exactly when the option's value is truthy, and
  the query has no other key. An \<^verbatim>\<open>arguments\<close> object is truthy also when it is empty:
  after \<^verbatim>\<open>select()\<close> or \<^verbatim>\<open>join()\<close> with no argument the key \<open>select\<close> or \<open>with\<close> is present and
  maps to the empty \<^verbatim>\<open>arguments\<close> object, while an option set to a falsy value gets no key.
\<close>

theorem buildQuery_keys:
  "map_of (fst (buildQuery c)) ''limit'' = (if p_limit c \<noteq> JNull then Some (p_limit c) else None)
   \<and> map_of (fst (buildQuery c)) ''offset'' =
       (if p_offset c \<noteq> JNull then Some (p_offset c) else None)
   \<and> map_of (fst (buildQuery c)) ''remember'' =
       (if p_remember c \<noteq> JNull then Some (p_remember c) else None)
   \<and> map_of (fst (buildQuery c)) ''q'' = (if wheres c \<noteq> [] then Some (JArr (wheres c)) else None)
   \<and> map_of (fst (buildQuery c)) ''s'' =
       (if ordering c \<noteq> [] then Some (JArr (ordering c)) else None)
   \<and> map_of (fst (buildQuery c)) ''g'' =
       (if js_length (p_group c) > 0 then Some (p_group c) else None)
   \<and> list_all (\<lambda>(f, short). map_of (fst (buildQuery c)) short =
         (if truthy (js_get (options c) f) then Some (js_get (options c) f) else None))
       shortnames
   \<and> fst ` set (fst (buildQuery c)) \<subseteq>
       set [''limit'', ''offset'', ''remember'', ''q'', ''s'', ''g''] \<union> snd ` set shortnames
   \<and> map_of (fst (buildQuery (select [] c))) ''select'' = Some (JArgs [])
   \<and> map_of (fst (buildQuery (join [] c))) ''with'' = Some (JArgs [])"
proof -
  have "map_of (fst (buildQuery (select [] c))) ''select'' = Some (JArgs [])"
    by (simp add: map_of_buildQuery shortnames_def select_def js_get_js_set)
  moreover have "map_of (fst (buildQuery (join [] c))) ''with'' = Some (JArgs [])"
    by (simp add: map_of_buildQuery shortnames_def join_def js_get_js_set)
  ultimately show ?thesis
    using buildQuery_scalar_keys [of c] buildQuery_list_keys [of c]
      buildQuery_option_keys [of c] buildQuery_no_other_key [of c]
    by blast
qed

theorem buildQuery_keys_witness:
  "map_of (fst (buildQuery (select [] (projr (constructor [] ''posts''))))) ''select''
     = Some (JArgs [])
   \<and> map_of (fst (buildQuery (projr (constructor [] ''posts'')
         \<lparr>options := [(''paginate'', JNum ''0'')]\<rparr>))) ''p'' = None
   \<and> map_of (fst (buildQuery (limit (JNum ''5'') (projr (constructor [] ''posts''))))) ''limit''
     = Some (JNum ''5'')"
  using buildQuery_keys [of "select [] (projr (constructor [] ''posts''))"]
    buildQuery_keys [of "projr (constructor [] ''posts'') \<lparr>options := [(''paginate'', JNum ''0'')]\<rparr>"]
    buildQuery_keys [of "limit (JNum ''5'') (projr (constructor [] ''posts''))"]
  by (simp add: shortnames_def select_def limit_def js_get_def constructor_def validateName_def
      name_char_def reset_def)

theorem select_no_arguments_counterexample:
  "fst (buildQuery (select [] (projr (constructor [] ''posts'')))) = [(''select'', JArgs [])]"
  by (simp add: buildQuery_def shortnames_def select_def js_get_def constructor_def
      validateName_def name_char_def reset_def)

section \<open>Terminal calls and the transport\<close>

lemma typeof_undefined: "(typeof v = ''undefined'') = (v = JUndefined)"
  by (cases v) simp_all










text \<open>
  C2, as the code has it. With a truthy \<open>onComplete\<close>, \<^verbatim>\<open>paginate(perPage, onComplete)\<close>
  stores \<open>perPage\<close> as the paginate option, and the query dispatched carries it under
  \<open>p\<close> when it is truthy. With no \<open>onComplete\<close> (or a falsy one) the first argument is taken
  as the completion callback and the option is \<^verbatim>\<open>Hook.defaults.perPage\<close>. In both cases
  the call adds to the trace exactly one request, a \<^verbatim>\<open>get\<close> on the collection path, and
  then attaches the page-fetch continuation to its promise; the accumulator is left reset.
\<close>

theorem paginate_one_read_dispatch:
  "(truthy onComplete \<longrightarrow>
      client (paginate d perPage onComplete onError c) =
        client c @
          [Request Get (segments c)
             [JObj (fst (buildQuery (c\<lparr>options := js_set (options c) ''paginate'' perPage\<rparr>)))],
           Then [FetchComplete onComplete, Callback onError]]
      \<and> map_of (fst (buildQuery (c\<lparr>options := js_set (options c) ''paginate'' perPage\<rparr>))) ''p''
          = (if truthy perPage then Some perPage else None))
   \<and> (\<not> truthy onComplete \<longrightarrow>
      client (paginate d perPage onComplete onError c) =
        client c @
          [Request Get (segments c)
             [JObj (fst (buildQuery (c\<lparr>options := js_set (options c) ''paginate'' d\<rparr>)))],
           Then [FetchComplete perPage, Callback onError]]
      \<and> map_of (fst (buildQuery (c\<lparr>options := js_set (options c) ''paginate'' d\<rparr>))) ''p''
          = (if truthy d then Some d else None))
   \<and> length (filter is_request (client (paginate d perPage onComplete onError c)))
       = length (filter is_request (client c)) + 1
   \<and> (paginate d perPage onComplete onError c)\<lparr>client := client c\<rparr> = reset c"
proof -
  have p: "map_of (fst (buildQuery (c\<lparr>options := js_set (options c) ''paginate'' x\<rparr>))) ''p''
          = (if truthy x then Some x else None)" for x
    by (simp add: map_of_buildQuery shortnames_def js_get_js_set)
  have t: "client (paginate d perPage onComplete onError c) =
        client c @
          [Request Get (segments c)
             [JObj (fst (buildQuery (c\<lparr>options := js_set (options c) ''paginate''
                 (if truthy onComplete then perPage else d)\<rparr>)))],
           Then [FetchComplete (if truthy onComplete then onComplete else perPage),
                 Callback onError]]"
    by (simp add: paginate_def then_js_def get_def Let_def split_beta snd_buildQuery reset_def)
  have r: "(paginate d perPage onComplete onError c)\<lparr>client := client c\<rparr> = reset c"
    by (simp add: paginate_def then_js_def get_def Let_def split_beta snd_buildQuery reset_def)
  have n: "length (filter is_request (client (paginate d perPage onComplete onError c)))
       = length (filter is_request (client c)) + 1"
    unfolding t by simp
  show ?thesis
    using p [of perPage] p [of d] t r n by simp
qed

theorem paginate_one_read_dispatch_witness:
  "client (paginate (JNum ''50'') (JNum ''20'') (JFun ''function (p) { show(p); }'') JUndefined
      (projr (constructor [] ''posts'')))
   = [Request Get ''collection/posts'' [JObj [(''p'', JNum ''20'')]],
      Then [FetchComplete (JFun ''function (p) { show(p); }''), Callback JUndefined]]
   \<and> client (paginate (JNum ''50'') (JFun ''function (p) { show(p); }'') JUndefined JUndefined
      (projr (constructor [] ''posts'')))
   = [Request Get ''collection/posts'' [JObj [(''p'', JNum ''50'')]],
      Then [FetchComplete (JFun ''function (p) { show(p); }''), Callback JUndefined]]"
  using paginate_one_read_dispatch
    [of "JFun ''function (p) { show(p); }''" "JNum ''50''" "JNum ''20''" JUndefined
       "projr (constructor [] ''posts'')"]
    paginate_one_read_dispatch
    [of JUndefined "JNum ''50''" "JFun ''function (p) { show(p); }''" JUndefined
       "projr (constructor [] ''posts'')"]
  by (simp add: buildQuery_def shortnames_def js_get_def constructor_def validateName_def
      name_char_def reset_def)

theorem paginate_number_only_counterexample:
  "client (paginate (JNum ''50'') (JNum ''20'') JUndefined JUndefined
      (projr (constructor [] ''posts'')))
   = [Request Get ''collection/posts'' [JObj [(''p'', JNum ''50'')]],
      Then [FetchComplete (JNum ''20''), Callback JUndefined]]"
  by (simp add: paginate_def then_js_def get_def buildQuery_def shortnames_def js_get_def
      constructor_def validateName_def name_char_def reset_def)

section \<open>Normalization of where and sort\<close>

lemma toLowerCase_eq: "toLowerCase ''='' = ''=''"
  by (simp add: toLowerCase_def lower_char_def)

lemma hasOwnProperty_builtin:
  "map_of (own_entries ob) ''hasOwnProperty'' = None \<Longrightarrow> k \<in> fst ` set (own_entries ob) \<Longrightarrow>
   hasOwnProperty ob k = Inr True"
proof -
  assume none: "map_of (own_entries ob) ''hasOwnProperty'' = None"
    and k: "k \<in> fst ` set (own_entries ob)"
  from k have "map_of (own_entries ob) k \<noteq> None"
    by (simp only: map_of_eq_None_iff not_not)
  with none show ?thesis
    unfolding hasOwnProperty_def by simp
qed

lemma where_entries_normal:
  "list_all (\<lambda>(k, x). pair_or_bare x) es \<Longrightarrow>
   map_of (own_entries ob) ''hasOwnProperty'' = None \<Longrightarrow>
   fst ` set es \<subseteq> fst ` set (own_entries ob) \<Longrightarrow>
   where_entries ob es b c = Inr (c\<lparr>wheres := wheres c @ map (clause_of_entry b) es\<rparr>)"
proof (induction es arbitrary: c)
  case Nil
  show ?case by simp
next
  case (Cons e es)
  obtain k x where e: "e = (k, x)" by (cases e)
  from Cons.prems e have x: "pair_or_bare x" and es: "list_all (\<lambda>(k, x). pair_or_bare x) es"
    and k: "k \<in> fst ` set (own_entries ob)" and sub: "fst ` set es \<subseteq> fst ` set (own_entries ob)"
    by simp_all
  have own: "hasOwnProperty ob k = Inr True"
    using hasOwnProperty_builtin [OF Cons.prems(2) k] .
  have step: "(case x of
              JArr xs \<Rightarrow> addWhere (JStr k) (js_index xs 0) (js_index xs 1) b c
            | _ \<Rightarrow> addWhere (JStr k) (JStr ''='') x b c)
          = Inr (c\<lparr>wheres := wheres c @ [clause_of_entry b (k, x)]\<rparr>)"
    using x
    by (induction x rule: pair_or_bare.induct)
       (simp_all add: addWhere_def js_index_def toLowerCase_eq)
  show ?case
    unfolding e by (simp add: own step Cons.IH [OF es Cons.prems(2) sub])
qed

lemma where_entries_own_method:
  "map_of (own_entries ob) ''hasOwnProperty'' = Some h \<Longrightarrow> typeof h \<noteq> ''function'' \<Longrightarrow>
   es \<noteq> [] \<Longrightarrow> where_entries ob es b c = Inl (TypeError, c)"
  by (cases es) (auto simp: hasOwnProperty_def)

text \<open>
  C6, as the code has it. \<^verbatim>\<open>where(f, v)\<close> leaves the single clause \<open>(f, "=", v, "and")\<close>,
  and so does \<^verbatim>\<open>where(f, "=", v)\<close> when \<open>v\<close> is not \<^verbatim>\<open>undefined\<close>. A map argument that has
  no entry named \<open>hasOwnProperty\<close>, and whose values are bare values or pairs of an ASCII
  operator string and a value, adds one clause for each entry, in the order of the
  entries: \<open>=\<close> for a bare value, the lower-cased operator and the value of a pair, all
  joined by \<open>and\<close>. A map with an entry named \<open>hasOwnProperty\<close> whose value is no function
  makes the call throw a \<^verbatim>\<open>TypeError\<close> and adds no clause.
\<close>

theorem where_normal_forms:
  "where_js (JStr f) v JUndefined JUndefined c =
     Inr (c\<lparr>wheres := wheres c @ [JArr [JStr f, JStr ''='', v, JStr ''and'']]\<rparr>)
   \<and> (v \<noteq> JUndefined \<longrightarrow>
        where_js (JStr f) (JStr ''='') v JUndefined c =
          Inr (c\<lparr>wheres := wheres c @ [JArr [JStr f, JStr ''='', v, JStr ''and'']]\<rparr>))
   \<and> (list_all (\<lambda>(k, x). pair_or_bare x) es \<and> ''hasOwnProperty'' \<notin> fst ` set es \<longrightarrow>
        where_js (JObj es) JUndefined JUndefined JUndefined c =
          Inr (c\<lparr>wheres := wheres c @ map (clause_of_entry (JStr ''and'')) es\<rparr>))
   \<and> (map_of es ''hasOwnProperty'' = Some h \<and> typeof h \<noteq> ''function'' \<longrightarrow>
        where_js (JObj es) JUndefined JUndefined JUndefined c = Inl (TypeError, c))"
proof -
  have "where_js (JObj es) JUndefined JUndefined JUndefined c =
          Inr (c\<lparr>wheres := wheres c @ map (clause_of_entry (JStr ''and'')) es\<rparr>)"
    if "list_all (\<lambda>(k, x). pair_or_bare x) es" and "''hasOwnProperty'' \<notin> fst ` set es"
  proof -
    from that(2) have "map_of (own_entries (JObj es)) ''hasOwnProperty'' = None"
      by (simp add: map_of_eq_None_iff)
    from where_entries_normal [OF that(1) this, of "JStr ''and''" c]
    show ?thesis by (simp add: where_js_def)
  qed
  moreover have "where_js (JObj es) JUndefined JUndefined JUndefined c = Inl (TypeError, c)"
    if "map_of es ''hasOwnProperty'' = Some h" and "typeof h \<noteq> ''function''"
  proof -
    from that(1) have "es \<noteq> []" by auto
    with that where_entries_own_method [of "JObj es" h es "JStr ''and''" c]
    show ?thesis by (simp add: where_js_def)
  qed
  moreover have "where_js (JStr f) v JUndefined JUndefined c =
     Inr (c\<lparr>wheres := wheres c @ [JArr [JStr f, JStr ''='', v, JStr ''and'']]\<rparr>)"
    by (simp add: where_js_def addWhere_def toLowerCase_eq)
  moreover have "v \<noteq> JUndefined \<longrightarrow>
        where_js (JStr f) (JStr ''='') v JUndefined c =
          Inr (c\<lparr>wheres := wheres c @ [JArr [JStr f, JStr ''='', v, JStr ''and'']]\<rparr>)"
    by (simp add: where_js_def addWhere_def toLowerCase_eq typeof_undefined)
  ultimately show ?thesis by blast
qed

theorem where_normal_forms_witness:
  "where_js (JStr ''a'') (JNum ''1'') JUndefined JUndefined (projr (constructor [] ''posts''))
     = where_js (JStr ''a'') (JStr ''='') (JNum ''1'') JUndefined (projr (constructor [] ''posts''))
   \<and> wheres (state_of (where_js (JStr ''a'') (JStr ''='') (JNum ''1'') JUndefined
        (projr (constructor [] ''posts''))))
     = [JArr [JStr ''a'', JStr ''='', JNum ''1'', JStr ''and'']]
   \<and> wheres (state_of (where_js
        (JObj [(''a'', JNum ''1''), (''b'', JArr [JStr ''>'', JNum ''2''])])
        JUndefined JUndefined JUndefined (projr (constructor [] ''posts''))))
     = [JArr [JStr ''a'', JStr ''='', JNum ''1'', JStr ''and''],
        JArr [JStr ''b'', JStr ''>'', JNum ''2'', JStr ''and'']]
   \<and> where_js (JObj [(''hasOwnProperty'', JNum ''1''), (''a'', JNum ''2'')])
        JUndefined JUndefined JUndefined (projr (constructor [] ''posts''))
     = Inl (TypeError, projr (constructor [] ''posts''))"
  using where_normal_forms
    [of "''a''" "JNum ''1''" "projr (constructor [] ''posts'')"
       "[(''a'', JNum ''1''), (''b'', JArr [JStr ''>'', JNum ''2''])]"]
    where_normal_forms
    [of "''a''" "JNum ''1''" "projr (constructor [] ''posts'')"
       "[(''hasOwnProperty'', JNum ''1''), (''a'', JNum ''2'')]" "JNum ''1''"]
  by (simp add: state_of_def ascii_def constructor_def validateName_def name_char_def
      reset_def toLowerCase_def lower_char_def)

theorem where_equals_undefined_counterexample:
  "where_js (JStr ''a'') (JStr ''='') JUndefined JUndefined (projr (constructor [] ''posts''))
     = Inr ((projr (constructor [] ''posts''))
          \<lparr>wheres := [JArr [JStr ''a'', JStr ''='', JStr ''='', JStr ''and'']]\<rparr>)
   \<and> where_js (JStr ''a'') JUndefined JUndefined JUndefined (projr (constructor [] ''posts''))
     = Inr ((projr (constructor [] ''posts''))
          \<lparr>wheres := [JArr [JStr ''a'', JStr ''='', JUndefined, JStr ''and'']]\<rparr>)"
  by (simp add: where_js_def addWhere_def toLowerCase_eq constructor_def validateName_def
      name_char_def reset_def)

lemma isDigit_digit_char: "d < 10 \<Longrightarrow> isDigit (digit_char d)"
  by (simp add: isDigit_def digit_char_def)

lemma value_digit_char: "d < 10 \<Longrightarrow> (of_char (digit_char d) :: nat) - 48 = d"
  by (simp add: digit_char_def)

lemma index_key_digits: "list_all isDigit (index_key n) \<and> index_key n \<noteq> []"
proof (induction n rule: index_key.induct)
  case (1 i)
  show ?case
  proof (cases "i div 10 = 0")
    case True
    then have "i < 10" by simp
    with True show ?thesis
      by (subst index_key.simps, subst index_key.simps) (simp add: isDigit_digit_char)
  next
    case False
    with 1 have "list_all isDigit (index_key (i div 10))" by simp
    with False show ?thesis
      by (subst index_key.simps, subst (2) index_key.simps) (simp add: isDigit_digit_char)
  qed
qed

lemma digits_value_snoc:
  "digits_value (ds @ [d]) = 10 * digits_value ds + ((of_char d :: nat) - 48)"
  by (simp add: digits_value_def)

lemma digits_value_index_key: "digits_value (index_key n) = n"
proof (induction n rule: index_key.induct)
  case (1 i)
  show ?case
  proof (cases "i div 10 = 0")
    case True
    then have "i < 10" by simp
    with True show ?thesis
      by (subst index_key.simps) (simp add: digits_value_def value_digit_char)
  next
    case False
    with 1 have "digits_value (index_key (i div 10)) = i div 10" by simp
    with False show ?thesis
      by (subst index_key.simps) (simp add: digits_value_snoc value_digit_char)
  qed
qed

lemma digit_not_space: "isDigit ch \<Longrightarrow> \<not> isWhiteSpace ch \<and> ch \<noteq> CHR ''-'' \<and> ch \<noteq> CHR ''+''"
  by (auto simp: isDigit_def isWhiteSpace_def)

lemma parseInt10_index_key: "parseInt10 (index_key n) = Some (int n)"
proof -
  let ?s = "index_key n"
  from index_key_digits [of n] have d: "list_all isDigit ?s" and ne: "?s \<noteq> []" by simp_all
  then obtain ch r where s: "?s = ch # r" by (cases ?s) simp_all
  with d have ch: "isDigit ch" by simp
  have dw: "dropWhile isWhiteSpace ?s = ?s"
    unfolding s using digit_not_space [OF ch] by simp
  have tw: "takeWhile isDigit ?s = ?s"
    using d by (simp add: list_all_iff)
  have hd: "hd ?s \<noteq> CHR ''-''" "hd ?s \<noteq> CHR ''+''"
    unfolding s using digit_not_space [OF ch] by simp_all
  show ?thesis
    unfolding parseInt10_def dw Let_def
    using hd ne by (simp add: tw digits_value_index_key)
qed

lemma parseInt10_minus_index_key: "parseInt10 (CHR ''-'' # index_key n) = Some (- int n)"
proof -
  let ?s = "index_key n"
  from index_key_digits [of n] have d: "list_all isDigit ?s" and ne: "?s \<noteq> []" by simp_all
  have tw: "takeWhile isDigit ?s = ?s"
    using d by (simp add: list_all_iff)
  have dw: "dropWhile isWhiteSpace (CHR ''-'' # ?s) = CHR ''-'' # ?s"
    by (simp add: isWhiteSpace_def)
  show ?thesis
    unfolding parseInt10_def dw Let_def
    using ne by (simp add: tw digits_value_index_key)
qed

lemma parseInt10_int_string: "parseInt10 (int_string i) = Some i"
  by (simp add: int_string_def parseInt10_index_key parseInt10_minus_index_key)

lemma parseInt10_literals: "parseInt10 ''0'' = Some 0" "parseInt10 ''NaN'' = None"
  by (simp_all add: parseInt10_def isWhiteSpace_def isDigit_def digits_value_def)

lemma truthy_int_string: "truthy (JNum (int_string i)) = (i \<noteq> 0)"
proof -
  have "int_string i \<noteq> ''NaN''"
    using parseInt10_int_string [of i] parseInt10_literals(2) by auto
  moreover have "(int_string i = ''0'') = (i = 0)"
  proof
    assume "int_string i = ''0''"
    with parseInt10_int_string [of i] parseInt10_literals(1) show "i = 0" by simp
  next
    assume "i = 0"
    then show "int_string i = ''0''"
      by (simp add: int_string_def index_key.simps digit_char_def char_of_eq_iff)
  qed
  ultimately show ?thesis by simp
qed

text \<open>
  C8, as the code has it. A falsy or omitted direction is stored as \<open>asc\<close>. A truthy
  Number is stored as \<open>desc\<close> exactly when \<^verbatim>\<open>parseInt\<close> reads \<open>-1\<close> from its string, and as
  \<open>asc\<close> otherwise: among the integers below \<open>10^21\<close> in magnitude only \<open>-1\<close> gives
  \<open>desc\<close>, but a Number such as \<open>-1.5\<close> gives it too, and so does \<open>-1e21\<close>, which prints as
  \<open>-1e+21\<close>. A truthy direction that is no Number is stored as it is. Each call appends
  one pair to the ordering, so \<^verbatim>\<open>sort("x").sort("y", -1)\<close> adds \<open>["x","asc"]\<close>, \<open>["y","desc"]\<close>.
\<close>

theorem sort_direction_normal_forms:
  "(\<not> truthy d \<longrightarrow>
      sort_js f d c = c\<lparr>ordering := ordering c @ [JArr [f, JStr ''asc'']]\<rparr>)
   \<and> (truthy (JNum n) \<longrightarrow>
      sort_js f (JNum n) c =
        c\<lparr>ordering := ordering c @
            [JArr [f, JStr (if parseInt10 n = Some (- 1) then ''desc'' else ''asc'')]]\<rparr>)
   \<and> (\<bar>i\<bar> < 10 ^ 21 \<longrightarrow>
      sort_js f (JNum (int_string i)) c =
        c\<lparr>ordering := ordering c @ [JArr [f, JStr (if i = - 1 then ''desc'' else ''asc'')]]\<rparr>)
   \<and> sort_js f (JNum ''-1e+21'') c = c\<lparr>ordering := ordering c @ [JArr [f, JStr ''desc'']]\<rparr>
   \<and> (truthy d \<and> typeof d \<noteq> ''number'' \<longrightarrow>
      sort_js f d c = c\<lparr>ordering := ordering c @ [JArr [f, d]]\<rparr>)
   \<and> ordering (sort_js (JStr ''y'') (JNum (int_string (- 1))) (sort_js (JStr ''x'') JUndefined c))
       = ordering c @ [JArr [JStr ''x'', JStr ''asc''], JArr [JStr ''y'', JStr ''desc'']]"
proof -
  have i: "sort_js g (JNum (int_string j)) c' =
        c'\<lparr>ordering := ordering c' @ [JArr [g, JStr (if j = - 1 then ''desc'' else ''asc'')]]\<rparr>"
    for g j c'
    unfolding sort_js_def Let_def truthy_int_string
    by (simp add: parseInt_def parseInt10_int_string)
  have u: "sort_js g JUndefined c' = c'\<lparr>ordering := ordering c' @ [JArr [g, JStr ''asc'']]\<rparr>"
    for g c'
    by (simp add: sort_js_def)
  have "ordering (sort_js (JStr ''y'') (JNum (int_string (- 1))) (sort_js (JStr ''x'') JUndefined c))
       = ordering c @ [JArr [JStr ''x'', JStr ''asc''], JArr [JStr ''y'', JStr ''desc'']]"
    unfolding i u by simp
  moreover have "\<not> truthy d \<longrightarrow>
      sort_js f d c = c\<lparr>ordering := ordering c @ [JArr [f, JStr ''asc'']]\<rparr>"
    by (simp add: sort_js_def)
  moreover have "truthy (JNum n) \<longrightarrow>
      sort_js f (JNum n) c =
        c\<lparr>ordering := ordering c @
            [JArr [f, JStr (if parseInt10 n = Some (- 1) then ''desc'' else ''asc'')]]\<rparr>"
    by (simp add: sort_js_def parseInt_def)
  moreover have "truthy d \<and> typeof d \<noteq> ''number'' \<longrightarrow>
      sort_js f d c = c\<lparr>ordering := ordering c @ [JArr [f, d]]\<rparr>"
    by (simp add: sort_js_def)
  moreover have "sort_js f (JNum ''-1e+21'') c =
      c\<lparr>ordering := ordering c @ [JArr [f, JStr ''desc'']]\<rparr>"
    by (simp add: sort_js_def parseInt_def parseInt10_def isWhiteSpace_def isDigit_def
        digits_value_def)
  ultimately show ?thesis
    using i [of f i c] by blast
qed

theorem sort_direction_normal_forms_witness:
  "ordering (sort_js (JStr ''y'') (JNum ''-1'')
      (sort_js (JStr ''x'') JUndefined (projr (constructor [] ''posts''))))
     = [JArr [JStr ''x'', JStr ''asc''], JArr [JStr ''y'', JStr ''desc'']]
   \<and> ordering (sort_js (JStr ''x'') (JNum ''2'') (projr (constructor [] ''posts'')))
     = [JArr [JStr ''x'', JStr ''asc'']]
   \<and> ordering (sort_js (JStr ''x'') (JNum ''0'') (projr (constructor [] ''posts'')))
     = [JArr [JStr ''x'', JStr ''asc'']]
   \<and> ordering (sort_js (JStr ''x'') (JStr ''desc'') (projr (constructor [] ''posts'')))
     = [JArr [JStr ''x'', JStr ''desc'']]
   \<and> ordering (sort_js (JStr ''x'') (JNum ''-1e+21'') (projr (constructor [] ''posts'')))
     = [JArr [JStr ''x'', JStr ''desc'']]"
proof -
  have s: "int_string (- 1) = ''-1''" "int_string 2 = ''2''"
    by (simp_all add: int_string_def index_key.simps digit_char_def char_of_eq_iff)
  have o: "ordering (projr (constructor [] ''posts'')) = []"
    by (simp add: constructor_def validateName_def name_char_def reset_def)
  from sort_direction_normal_forms
      [of "JNum ''0''" "JStr ''x''" "projr (constructor [] ''posts'')" "''2''" 2]
    sort_direction_normal_forms
      [of "JStr ''desc''" "JStr ''x''" "projr (constructor [] ''posts'')" "''-1''" "- 1"]
  show ?thesis
    unfolding s
    by (simp add: o parseInt10_def isWhiteSpace_def isDigit_def digits_value_def)
qed

theorem sort_fraction_counterexample:
  "ordering (sort_js (JStr ''x'') (JNum ''-1.5'') (projr (constructor [] ''posts'')))
     = [JArr [JStr ''x'', JStr ''desc'']]"
  by (simp add: sort_js_def parseInt_def parseInt10_def isWhiteSpace_def isDigit_def
      digits_value_def constructor_def validateName_def name_char_def reset_def)

end
